theory Spec2Isabelle
  imports Complex_Main
begin

section \<open>The sampler of server/audio/sampler.py\<close>

text \<open>
  The sampler mixes the chunks of several sounds and hands the mixed chunks to an
  output stream. Its methods run in several threads: callers of \<open>play\<close> and
  \<open>remove\<close>, the thread of \<open>run\<close>, and the thread of \<open>chunks_producer\<close>. The model is
  a record of the sampler's attributes together with the sound objects it refers to,
  one function per method, and a step function that interleaves the threads at the
  points where the source blocks or takes the lock.
\<close>

subsection \<open>Data\<close>

type_synonym chunk = "real list"

text \<open>A sound object is known by its identity; \<open>sound in self.sounds\<close> compares identities.\<close>

type_synonym sid = nat

datatype error = ValueError

text \<open>
  The sound class is not part of sampler.py. The sampler reads \<open>sound.sr\<close>, reads and
  assigns \<open>sound.playing\<close>, and calls \<open>next(sound.chunks)\<close>. \<open>frames\<close> is the whole
  finite chunk sequence of the sound, \<open>sound_chunks\<close> what its iterator has not
  yielded yet.
\<close>

record sound =
  sound_sr :: int
  playing :: bool
  frames :: "chunk list"
  sound_chunks :: "chunk list"

text \<open>
  Modelled from the spec: the sound class (its \<open>playing\<close> setter and its chunk
  iterator) is missing from the sources. The spec says that a source yields its next
  chunk or signals the end of the sequence, and that a source played again restarts:
  its chunk sequence resumes from the beginning, not mid-stream. The sampler's only
  writes to a sound are the assignments to \<open>playing\<close>, so the restart is placed in the
  assignment of \<open>True\<close>.
\<close>

definition set_playing :: "bool \<Rightarrow> sound \<Rightarrow> sound" where
  "set_playing v s =
     (if v then s\<lparr>playing := True, sound_chunks := frames s\<rparr> else s\<lparr>playing := False\<rparr>)"

text \<open>\<open>next(s.chunks)\<close>: the next chunk and the advanced sound, or \<open>None\<close> for StopIteration.\<close>

definition next_chunk :: "sound \<Rightarrow> (chunk \<times> sound) option" where
  "next_chunk s =
     (case sound_chunks s of
        [] \<Rightarrow> None
      | c # cs \<Rightarrow> Some (c, s\<lparr>sound_chunks := cs\<rparr>))"

text \<open>
  \<open>queue.Queue(maxsize)\<close> of the standard library: \<open>put\<close> blocks while the queue holds
  \<open>maxsize\<close> items (for a positive \<open>maxsize\<close>), \<open>get\<close> takes the oldest item and blocks
  while there is none. A blocked call is \<open>None\<close>.
\<close>

record 'a queue =
  maxsize :: nat
  items :: "'a list"

definition Queue :: "nat \<Rightarrow> 'a queue" where
  "Queue n = \<lparr>maxsize = n, items = []\<rparr>"

definition queue_put :: "'a \<Rightarrow> 'a queue \<Rightarrow> 'a queue option" where
  "queue_put x q =
     (if 0 < maxsize q \<and> maxsize q \<le> length (items q) then None
      else Some (q\<lparr>items := items q @ [x]\<rparr>))"

definition queue_get :: "'a queue \<Rightarrow> ('a \<times> 'a queue) option" where
  "queue_get q =
     (case items q of
        [] \<Rightarrow> None
      | x # xs \<Rightarrow> Some (x, q\<lparr>items := xs\<rparr>))"

datatype backend_stream = DummyStream | OutputStream

text \<open>Where the thread of \<open>run\<close> stands.\<close>

datatype run_pc = Run_None | Run_Start | Run_Loop | Run_Exited

text \<open>
  Where the thread of \<open>chunks_producer\<close> stands: at the test of its \<open>while\<close>, at the
  start of a cycle of \<open>next_chunks\<close>, blocked in \<open>chunk_available.wait()\<close>, at the
  \<open>put\<close> of a mixed chunk, after the loop, or killed by an exception.
\<close>

datatype producer_pc =
  P_None | P_Check | P_Cycle | P_Wait | P_Put chunk | P_Exited | P_Raised error

text \<open>
  The sampler object and what it refers to. \<open>heap\<close> holds the sound objects,
  \<open>waiters\<close> the sounds whose \<open>play\<close> calls are blocked in \<open>is_done.wait()\<close>,
  \<open>stream_open\<close> and \<open>stream_written\<close> the output stream of \<open>run\<close>.
\<close>

record state =
  sr :: int
  sounds :: "sid list"
  chunks :: "chunk queue"
  is_done :: bool
  timeout :: int
  BackendStream :: "backend_stream option"
  running :: bool
  play_thread :: run_pc
  producer :: producer_pc
  heap :: "sid \<Rightarrow> sound"
  waiters :: "sid list"
  stream_open :: bool
  stream_written :: "chunk list"

subsection \<open>Construction\<close>

text \<open>
  \<open>__init__\<close>: the attributes in the order of the source, then the backend, then the
  thread of \<open>run\<close>. An unknown backend raises before the thread is created; the object
  is left with the attributes set so far. \<open>h\<close> is the sound objects of the program.
\<close>

definition Sampler_init :: "int \<Rightarrow> string \<Rightarrow> int \<Rightarrow> (sid \<Rightarrow> sound) \<Rightarrow> error option \<times> state" where
  "Sampler_init sr0 backend timeout0 h =
     (let self = \<lparr>sr = sr0, sounds = [], chunks = Queue 1, is_done = False,
                  timeout = timeout0, BackendStream = None, running = False,
                  play_thread = Run_None, producer = P_None, heap = h, waiters = [],
                  stream_open = False, stream_written = []\<rparr>
      in if backend = ''dummy'' then
           (None, self\<lparr>BackendStream := Some DummyStream, play_thread := Run_Start\<rparr>)
         else if backend = ''sounddevice'' then
           (None, self\<lparr>BackendStream := Some OutputStream, play_thread := Run_Start\<rparr>)
         else (Some ValueError, self))"

subsection \<open>play and remove\<close>

text \<open>\<open>list.remove(x)\<close> deletes the first occurrence of \<open>x\<close> and raises ValueError without one.\<close>

definition list_remove :: "'a \<Rightarrow> 'a list \<Rightarrow> error + 'a list" where
  "list_remove x xs = (if x \<in> set xs then Inr (remove1 x xs) else Inl ValueError)"

text \<open>\<open>sound.playing = v\<close> on the sound object \<open>s\<close>.\<close>

definition assign_playing :: "sid \<Rightarrow> bool \<Rightarrow> state \<Rightarrow> state" where
  "assign_playing s v st = st\<lparr>heap := (heap st)(s := set_playing v (heap st s))\<rparr>"

text \<open>
  \<open>remove\<close>: under the lock, \<open>playing\<close> is cleared first and the sound is then taken out
  of the list; the state returned with an error is the state the exception leaves.
\<close>

definition remove :: "sid \<Rightarrow> state \<Rightarrow> error option \<times> state" where
  "remove s st =
     (let st1 = assign_playing s False st
      in case list_remove s (sounds st1) of
           Inl e \<Rightarrow> (Some e, st1)
         | Inr l \<Rightarrow> (None, st1\<lparr>sounds := l\<rparr>))"

text \<open>\<open>chunk_available.notify()\<close> wakes the producer when it waits on the condition.\<close>

definition notify :: "state \<Rightarrow> state" where
  "notify st = (if producer st = P_Wait then st\<lparr>producer := P_Cycle\<rparr> else st)"

text \<open>
  \<open>play\<close> up to \<open>is_done.wait()\<close>: the state in which the caller starts to wait, or the
  error raised and the state it leaves.
\<close>

definition play :: "sid \<Rightarrow> state \<Rightarrow> error option \<times> state" where
  "play s st =
     (let st1 = st\<lparr>is_done := False\<rparr>
      in if sr st1 \<noteq> sound_sr (heap st1 s) then (Some ValueError, st1)
         else
           (case (if s \<in> set (sounds st1) then remove s st1 else (None, st1)) of
              (Some e, st2) \<Rightarrow> (Some e, st2)
            | (None, st2) \<Rightarrow>
                (None, notify (assign_playing s True (st2\<lparr>sounds := sounds st2 @ [s]\<rparr>)))))"

subsection \<open>The play loop\<close>

text \<open>
  \<open>numpy.mean(chunks, axis=0)\<close> on a list of one-dimensional arrays: the arrays are
  added up elementwise and the sum is divided by their number. Arrays of different
  lengths do not form an array and raise ValueError. Samples are real numbers here;
  the rounding of floating point is not modelled. \<open>next_chunks\<close> calls it on a
  non-empty list only.
\<close>

definition numpy_mean :: "chunk list \<Rightarrow> error + chunk" where
  "numpy_mean cs =
     (case cs of
        [] \<Rightarrow> Inl ValueError
      | c # rest \<Rightarrow>
          if list_all (\<lambda>d. length d = length c) rest
          then Inr (map (\<lambda>x. x / real (length cs)) (foldl (map2 (+)) c rest))
          else Inl ValueError)"

text \<open>
  The body of the \<open>for\<close> loop of \<open>next_chunks\<close> over the snapshot \<open>playing_sounds\<close>:
  each sound either gives its next chunk, or is exhausted, marked as not playing,
  removed from the list, and \<open>is_done\<close> is set.
\<close>

fun pull_chunks :: "sid list \<Rightarrow> state \<Rightarrow> chunk list \<Rightarrow> error option \<times> state \<times> chunk list" where
  "pull_chunks [] st acc = (None, st, acc)"
| "pull_chunks (s # ss) st acc =
     (case next_chunk (heap st s) of
        Some (c, s') \<Rightarrow> pull_chunks ss (st\<lparr>heap := (heap st)(s := s')\<rparr>) (acc @ [c])
      | None \<Rightarrow>
          (let st1 = assign_playing s False st
           in case list_remove s (sounds st1) of
                Inl e \<Rightarrow> (Some e, st1, acc)
              | Inr l \<Rightarrow> pull_chunks ss (st1\<lparr>sounds := l, is_done := True\<rparr>) acc))"

datatype cycle_result = Returned chunk | Blocked | Raised error

text \<open>
  One pass of the \<open>while True\<close> loop of \<open>next_chunks\<close>, under the lock: the mean of the
  collected chunks is returned, or the thread goes to \<open>chunk_available.wait()\<close>.
\<close>

definition next_chunks_cycle :: "state \<Rightarrow> cycle_result \<times> state" where
  "next_chunks_cycle st =
     (let playing_sounds = filter (\<lambda>s. playing (heap st s)) (sounds st)
      in case pull_chunks playing_sounds st [] of
           (Some e, st', cs) \<Rightarrow> (Raised e, st')
         | (None, st', cs) \<Rightarrow>
             if cs \<noteq> [] then
               (case numpy_mean cs of
                  Inl e \<Rightarrow> (Raised e, st')
                | Inr m \<Rightarrow> (Returned m, st'))
             else (Blocked, st'))"

text \<open>
  A step of the thread of \<open>chunks_producer\<close>: \<open>while self.running:
  self.chunks.put(self.next_chunks())\<close>. \<open>None\<close> means that the thread cannot move: it
  waits on the condition, its \<open>put\<close> finds the queue full, or it has ended.
\<close>

definition chunks_producer :: "state \<Rightarrow> state option" where
  "chunks_producer st =
     (case producer st of
        P_Check \<Rightarrow> Some (st\<lparr>producer := (if running st then P_Cycle else P_Exited)\<rparr>)
      | P_Cycle \<Rightarrow>
          (case next_chunks_cycle st of
             (Returned m, st') \<Rightarrow> Some (st'\<lparr>producer := P_Put m\<rparr>)
           | (Blocked, st') \<Rightarrow> Some (st'\<lparr>producer := P_Wait\<rparr>)
           | (Raised e, st') \<Rightarrow> Some (st'\<lparr>producer := P_Raised e\<rparr>))
      | P_Put m \<Rightarrow>
          (case queue_put m (chunks st) of
             None \<Rightarrow> None
           | Some q \<Rightarrow> Some (st\<lparr>chunks := q, producer := P_Check\<rparr>))
      | _ \<Rightarrow> None)"

text \<open>
  A step of the thread of \<open>run\<close>. At its start it sets \<open>running\<close>, starts the producer
  and opens the stream. In its loop it writes the chunk it gets from the queue; with
  \<open>running\<close> cleared it leaves the \<open>with\<close> block, which closes the stream. With an empty
  queue the \<open>get\<close> blocks, until \<open>run_timeout\<close>.
\<close>

definition run :: "state \<Rightarrow> state option" where
  "run st =
     (case play_thread st of
        Run_Start \<Rightarrow>
          Some (st\<lparr>running := True, producer := P_Check, stream_open := True,
                   play_thread := Run_Loop\<rparr>)
      | Run_Loop \<Rightarrow>
          if running st then
            (case queue_get (chunks st) of
               None \<Rightarrow> None
             | Some (c, q) \<Rightarrow>
                 Some (st\<lparr>chunks := q, stream_written := stream_written st @ [c]\<rparr>))
          else Some (st\<lparr>stream_open := False, play_thread := Run_Exited\<rparr>)
      | _ \<Rightarrow> None)"

text \<open>
  The \<open>get\<close> of \<open>run\<close> times out on an empty queue: \<open>except Empty: self.running = False\<close>.
  The length of the timeout is not modelled; the step is possible whenever the
  thread is in its \<open>get\<close> and the queue is empty.
\<close>

definition run_timeout :: "state \<Rightarrow> state option" where
  "run_timeout st =
     (if play_thread st = Run_Loop \<and> running st \<and> items (chunks st) = []
      then Some (st\<lparr>running := False\<rparr>) else None)"

subsection \<open>The threads together\<close>

text \<open>
  What a thread can do next: a caller enters \<open>play\<close> or \<open>remove\<close>, a caller's
  \<open>is_done.wait()\<close> returns, the thread of \<open>run\<close> or the producer moves, the \<open>get\<close>
  times out. A call of \<open>play\<close> up to its wait is one step, and so is a call of
  \<open>remove\<close> and a cycle of \<open>next_chunks\<close>. In the source \<open>play\<close> tests the samplerate
  and the membership outside the lock and takes the lock once in \<open>remove\<close> and once
  for the append; what other threads do between these parts of one call is not
  modelled.
\<close>

datatype action = Play sid | PlayReturn sid | Remove sid | Run | RunTimeout | Producer

definition play_return :: "sid \<Rightarrow> state \<Rightarrow> state option" where
  "play_return s st =
     (if s \<in> set (waiters st) \<and> is_done st
      then Some (st\<lparr>waiters := remove1 s (waiters st)\<rparr>) else None)"

fun step :: "action \<Rightarrow> state \<Rightarrow> state option" where
  "step (Play s) st =
     (case play s st of
        (Some e, st') \<Rightarrow> Some st'
      | (None, st') \<Rightarrow> Some (st'\<lparr>waiters := waiters st' @ [s]\<rparr>))"
| "step (PlayReturn s) st = play_return s st"
| "step (Remove s) st = Some (snd (remove s st))"
| "step Run st = run st"
| "step RunTimeout st = run_timeout st"
| "step Producer st = chunks_producer st"

text \<open>A schedule is a list of actions; it runs as long as each action is possible.\<close>

fun steps :: "action list \<Rightarrow> state \<Rightarrow> state option" where
  "steps [] st = Some st"
| "steps (a # as) st = (case step a st of None \<Rightarrow> None | Some st' \<Rightarrow> steps as st')"

text \<open>The states of a sampler that was constructed with a known backend.\<close>

inductive reachable :: "state \<Rightarrow> bool" where
  init: "Sampler_init sr0 backend timeout0 h = (None, st) \<Longrightarrow> reachable st"
| step: "reachable st \<Longrightarrow> step a st = Some st' \<Longrightarrow> reachable st'"


subsection \<open>Example sounds and states\<close>

text \<open>
  Three sounds at the sampler's rate of 22050, a sound at another rate that its owner
  has marked as playing, and a sampler with the dummy backend.
\<close>

definition snd_A :: sound where
  "snd_A = \<lparr>sound_sr = 22050, playing = False,
            frames = [[1, 1], [1, 1], [1, 1]], sound_chunks = [[1, 1], [1, 1], [1, 1]]\<rparr>"

definition snd_B :: sound where
  "snd_B = \<lparr>sound_sr = 22050, playing = False, frames = [[3, 5]], sound_chunks = [[3, 5]]\<rparr>"

definition snd_C :: sound where
  "snd_C = \<lparr>sound_sr = 44100, playing = True, frames = [[2, 2]], sound_chunks = [[2, 2]]\<rparr>"

definition heap0 :: "sid \<Rightarrow> sound" where
  "heap0 = (\<lambda>_. snd_C)(0 := snd_A, 1 := snd_B)"

definition st0 :: state where
  "st0 = snd (Sampler_init 22050 ''dummy'' 1 heap0)"

text \<open>Both sounds registered, no chunk pulled yet.\<close>

definition st_two :: state where
  "st_two = snd (play 1 (snd (play 0 st0)))"

text \<open>
  The sound of one chunk has been played to its end and its \<open>play\<close> call has returned:
  \<open>is_done\<close> is set.
\<close>

definition st_finished :: state where
  "st_finished =
     the (steps [Run, Play 1, Producer, Producer, Producer, Producer, Producer, PlayReturn 1] st0)"

text \<open>
  Two callers play the sounds 0 and 1 at the same time; the producer has mixed one
  chunk and, in its second cycle, found the sound 1 exhausted.
\<close>

definition st_B_done :: state where
  "st_B_done =
     the (steps [Run, Play 0, Play 1, Producer, Producer, Producer, Producer, Producer] st0)"

text \<open>
  Nothing is played: the producer finds no sound and waits on the condition, the
  \<open>get\<close> of \<open>run\<close> times out, and \<open>run\<close> leaves its loop.
\<close>

definition st_starved :: state where
  "st_starved = the (steps [Run, Producer, Producer, RunTimeout, Run] st0)"

text \<open>Both sounds registered and one chunk pulled from each.\<close>

definition st_two_cycled :: state where
  "st_two_cycled = snd (next_chunks_cycle st_two)"

text \<open>
  The state before \<open>st_B_done\<close>: the producer is about to start the cycle in which it
  finds the sound 1 exhausted.
\<close>

definition st_B_pre :: state where
  "st_B_pre = the (steps [Run, Play 0, Play 1, Producer, Producer, Producer, Producer] st0)"

text \<open>One chunk is in the queue and the producer holds the next one.\<close>

definition st_full :: state where
  "st_full =
     the (steps [Run, Play 0, Producer, Producer, Producer, Producer, Producer] st0)"

section \<open>Properties\<close>

lemmas example_defs = st0_def st_two_def heap0_def snd_A_def snd_B_def snd_C_def

lemmas sched_defs = st_finished_def st_B_done_def st_starved_def st_B_pre_def st_full_def
  st_two_cycled_def

lemmas model_defs = Sampler_init_def Queue_def play_def remove_def list_remove_def
  assign_playing_def set_playing_def notify_def next_chunk_def queue_put_def queue_get_def
  numpy_mean_def next_chunks_cycle_def chunks_producer_def run_def run_timeout_def
  play_return_def

subsection \<open>What play and remove compute\<close>

lemma remove_member:
  "s \<in> set (sounds st) \<Longrightarrow>
   remove s st = (None, assign_playing s False st\<lparr>sounds := remove1 s (sounds st)\<rparr>)"
  by (simp add: remove_def list_remove_def assign_playing_def Let_def)

lemma remove_absent:
  "s \<notin> set (sounds st) \<Longrightarrow> remove s st = (Some ValueError, assign_playing s False st)"
  by (simp add: remove_def list_remove_def assign_playing_def Let_def)

lemma play_mismatch:
  "sr st \<noteq> sound_sr (heap st s) \<Longrightarrow> play s st = (Some ValueError, st\<lparr>is_done := False\<rparr>)"
  by (simp add: play_def Let_def)

lemma play_member:
  "sr st = sound_sr (heap st s) \<Longrightarrow> s \<in> set (sounds st) \<Longrightarrow>
   play s st =
     (None, notify (assign_playing s True
        (assign_playing s False (st\<lparr>is_done := False\<rparr>)
           \<lparr>sounds := remove1 s (sounds st) @ [s]\<rparr>)))"
  by (simp add: play_def Let_def remove_member assign_playing_def)

lemma play_fresh:
  "sr st = sound_sr (heap st s) \<Longrightarrow> s \<notin> set (sounds st) \<Longrightarrow>
   play s st =
     (None, notify (assign_playing s True (st\<lparr>is_done := False, sounds := sounds st @ [s]\<rparr>)))"
  by (simp add: play_def Let_def)

subsection \<open>The mean of the chunks\<close>






subsection \<open>Construction with an unknown backend\<close>

text \<open>
  C8. With a backend other than \<open>sounddevice\<close> and \<open>dummy\<close>, \<open>__init__\<close> raises
  ValueError, and the object it leaves has no thread of \<open>run\<close> and no producer
  thread: neither can take a step.
\<close>

theorem init_unknown_backend:
  "backend \<noteq> ''sounddevice'' \<Longrightarrow> backend \<noteq> ''dummy'' \<Longrightarrow>
     fst (Sampler_init sr0 backend t h) = Some ValueError \<and>
     play_thread (snd (Sampler_init sr0 backend t h)) = Run_None \<and>
     producer (snd (Sampler_init sr0 backend t h)) = P_None \<and>
     run (snd (Sampler_init sr0 backend t h)) = None \<and>
     chunks_producer (snd (Sampler_init sr0 backend t h)) = None"
  by (simp add: Sampler_init_def run_def chunks_producer_def)

theorem init_unknown_backend_witness:
  "''alsa'' \<noteq> ''sounddevice'' \<and> ''alsa'' \<noteq> ''dummy'' \<and>
   fst (Sampler_init 22050 ''alsa'' 1 heap0) = Some ValueError \<and>
   play_thread (snd (Sampler_init 22050 ''alsa'' 1 heap0)) = Run_None \<and>
   fst (Sampler_init 22050 ''dummy'' 1 heap0) = None \<and>
   play_thread (snd (Sampler_init 22050 ''dummy'' 1 heap0)) = Run_Start"
proof -
  have a: "''alsa'' \<noteq> ''sounddevice''" and b: "''alsa'' \<noteq> ''dummy''" by simp_all
  have "fst (Sampler_init 22050 ''dummy'' 1 heap0) = None"
    "play_thread (snd (Sampler_init 22050 ''dummy'' 1 heap0)) = Run_Start"
    by (simp_all add: Sampler_init_def)
  with init_unknown_backend [OF a b, of 22050 1 heap0] show ?thesis by simp
qed

subsection \<open>The errors of remove and play\<close>

text \<open>
  C10. \<open>remove\<close> of a sound that is not in the list raises ValueError, and the state
  the error leaves differs from the state before in the \<open>playing\<close> flag of that sound,
  which is false.
\<close>

theorem remove_absent_raises:
  "s \<notin> set (sounds st) \<Longrightarrow>
     fst (remove s st) = Some ValueError \<and>
     \<not> playing (heap (snd (remove s st)) s) \<and>
     snd (remove s st) = st\<lparr>heap := (heap st)(s := (heap st s)\<lparr>playing := False\<rparr>)\<rparr>"
  by (simp add: remove_absent assign_playing_def set_playing_def)

theorem remove_absent_raises_witness:
  "2 \<notin> set (sounds st_two) \<and> playing (heap st_two 2) \<and>
   fst (remove 2 st_two) = Some ValueError \<and> \<not> playing (heap (snd (remove 2 st_two)) 2)"
proof -
  have h: "2 \<notin> set (sounds st_two)" and p: "playing (heap st_two 2)"
    by (simp_all add: example_defs model_defs)
  from remove_absent_raises [OF h] h p show ?thesis by simp
qed

text \<open>
  C3 as stated fails: \<open>play\<close> of a sound with another samplerate raises ValueError,
  but \<open>is_done\<close>, which was set when the last sound ended, is cleared before the
  samplerates are compared.
\<close>

theorem play_mismatch_counterexample:
  "sr st_finished \<noteq> sound_sr (heap st_finished 2) \<and>
   fst (play 2 st_finished) = Some ValueError \<and>
   is_done st_finished \<and> \<not> is_done (snd (play 2 st_finished)) \<and>
   snd (play 2 st_finished) \<noteq> st_finished"
proof -
  have a: "sr st_finished \<noteq> sound_sr (heap st_finished 2)"
    and b: "is_done st_finished"
    by (simp_all add: st_finished_def example_defs model_defs)
  have c: "fst (play 2 st_finished) = Some ValueError"
    and d: "\<not> is_done (snd (play 2 st_finished))"
    using a by (simp_all add: play_mismatch)
  from b d have "snd (play 2 st_finished) \<noteq> st_finished" by auto
  with a b c d show ?thesis by simp
qed

text \<open>
  C3, amended. \<open>play\<close> of a sound whose samplerate differs from the sampler's raises
  ValueError; the list of sounds, the sound objects and every other component of
  the state are unchanged, except that \<open>is_done\<close> is cleared. The caller does not
  wait.
\<close>

theorem play_mismatch_clears_is_done_only:
  "sr st \<noteq> sound_sr (heap st s) \<Longrightarrow>
     play s st = (Some ValueError, st\<lparr>is_done := False\<rparr>) \<and>
     sounds (snd (play s st)) = sounds st \<and>
     heap (snd (play s st)) = heap st \<and>
     step (Play s) st = Some (st\<lparr>is_done := False\<rparr>)"
  by (simp add: play_mismatch)

theorem play_mismatch_clears_is_done_only_witness:
  "sr st_two \<noteq> sound_sr (heap st_two 2) \<and>
   fst (play 2 st_two) = Some ValueError \<and>
   sounds (snd (play 2 st_two)) = [0, 1] \<and>
   waiters (the (step (Play 2) st_two)) = waiters st_two"
proof -
  have h: "sr st_two \<noteq> sound_sr (heap st_two 2)" and s: "sounds st_two = [0, 1]"
    by (simp_all add: example_defs model_defs)
  from play_mismatch_clears_is_done_only [OF h] h s show ?thesis by simp
qed

subsection \<open>The invariant of the playback set\<close>

lemma pull_chunks_frame:
  "pull_chunks ss st acc = (e, st', cs) \<Longrightarrow>
     chunks st' = chunks st \<and> sr st' = sr st \<and> running st' = running st \<and>
     play_thread st' = play_thread st \<and> producer st' = producer st \<and>
     waiters st' = waiters st \<and> stream_open st' = stream_open st \<and>
     stream_written st' = stream_written st \<and> set (sounds st') \<subseteq> set (sounds st)"
proof (induction ss arbitrary: st acc)
  case Nil
  then show ?case by simp
next
  case (Cons s ss)
  show ?case
  proof (cases "next_chunk (heap st s)")
    case (Some p)
    obtain c s' where p: "p = (c, s')" by (cases p)
    from Cons.prems Some p
    have "pull_chunks ss (st\<lparr>heap := (heap st)(s := s')\<rparr>) (acc @ [c]) = (e, st', cs)"
      by simp
    from Cons.IH [OF this] show ?thesis by simp
  next
    case None
    show ?thesis
    proof (cases "s \<in> set (sounds st)")
      case True
      from Cons.prems None True
      have "pull_chunks ss (assign_playing s False st
              \<lparr>sounds := remove1 s (sounds st), is_done := True\<rparr>) acc = (e, st', cs)"
        by (simp add: list_remove_def assign_playing_def)
      from Cons.IH [OF this] show ?thesis
        using set_remove1_subset [of s "sounds st"] by (auto simp: assign_playing_def)
    next
      case False
      with Cons.prems None show ?thesis
        by (auto simp: list_remove_def assign_playing_def)
    qed
  qed
qed




lemma next_chunks_cycle_pull:
  "pull_chunks (filter (\<lambda>s. playing (heap st s)) (sounds st)) st [] = (e, st', cs) \<Longrightarrow>
   snd (next_chunks_cycle st) = st'"
  by (simp add: next_chunks_cycle_def split: option.splits sum.splits)




subsection \<open>Playing a sound that is already registered\<close>



subsection \<open>Where the completion signal is set\<close>

lemma pull_chunks_exhausted_stays:
  "sound_chunks (heap st x) = [] \<Longrightarrow> \<not> playing (heap st x) \<Longrightarrow>
   pull_chunks ss st acc = (e, st', cs) \<Longrightarrow>
   sound_chunks (heap st' x) = [] \<and> \<not> playing (heap st' x)"
proof (induction ss arbitrary: st acc)
  case Nil
  then show ?case by simp
next
  case (Cons s ss)
  show ?case
  proof (cases "next_chunk (heap st s)")
    case (Some p)
    obtain c s' where p: "p = (c, s')" by (cases p)
    have ne: "s \<noteq> x" using Some Cons.prems(1) by (auto simp: next_chunk_def split: list.splits)
    let ?st1 = "st\<lparr>heap := (heap st)(s := s')\<rparr>"
    have a: "sound_chunks (heap ?st1 x) = []" "\<not> playing (heap ?st1 x)"
      using ne Cons.prems(1,2) by simp_all
    from Cons.prems(3) Some p
    have "pull_chunks ss ?st1 (acc @ [c]) = (e, st', cs)" by simp
    from Cons.IH [OF a this] show ?thesis .
  next
    case None
    let ?st1 = "assign_playing s False st"
    have a: "sound_chunks (heap ?st1 x) = []" "\<not> playing (heap ?st1 x)"
      using Cons.prems(1,2) by (auto simp: assign_playing_def set_playing_def)
    show ?thesis
    proof (cases "s \<in> set (sounds st)")
      case True
      let ?st2 = "?st1\<lparr>sounds := remove1 s (sounds st), is_done := True\<rparr>"
      have b: "sound_chunks (heap ?st2 x) = []" "\<not> playing (heap ?st2 x)"
        using a by simp_all
      from Cons.prems(3) None True
      have "pull_chunks ss ?st2 acc = (e, st', cs)"
        by (simp add: list_remove_def assign_playing_def)
      from Cons.IH [OF b this] show ?thesis .
    next
      case False
      with Cons.prems(3) None have "st' = ?st1"
        by (simp add: list_remove_def assign_playing_def)
      with a show ?thesis by simp
    qed
  qed
qed

lemma pull_chunks_is_done:
  "pull_chunks ss st acc = (e, st', cs) \<Longrightarrow> \<not> is_done st \<Longrightarrow> is_done st' \<Longrightarrow>
   \<exists>x\<in>set ss. x \<in> set (sounds st) \<and> sound_chunks (heap st' x) = [] \<and> \<not> playing (heap st' x)"
proof (induction ss arbitrary: st acc)
  case Nil
  then show ?case by simp
next
  case (Cons s ss)
  show ?case
  proof (cases "next_chunk (heap st s)")
    case (Some p)
    obtain c s' where p: "p = (c, s')" by (cases p)
    let ?st1 = "st\<lparr>heap := (heap st)(s := s')\<rparr>"
    from Cons.prems(1) Some p
    have "pull_chunks ss ?st1 (acc @ [c]) = (e, st', cs)" by simp
    from Cons.IH [OF this] Cons.prems(2,3) show ?thesis by simp
  next
    case None
    then have empty: "sound_chunks (heap st s) = []"
      by (simp add: next_chunk_def split: list.splits)
    let ?st1 = "assign_playing s False st"
    show ?thesis
    proof (cases "s \<in> set (sounds st)")
      case True
      let ?st2 = "?st1\<lparr>sounds := remove1 s (sounds st), is_done := True\<rparr>"
      have b: "sound_chunks (heap ?st2 s) = []" "\<not> playing (heap ?st2 s)"
        using empty by (simp_all add: assign_playing_def set_playing_def)
      from Cons.prems(1) None True
      have "pull_chunks ss ?st2 acc = (e, st', cs)"
        by (simp add: list_remove_def assign_playing_def)
      from pull_chunks_exhausted_stays [OF b this] True show ?thesis by simp
    next
      case False
      with Cons.prems(1) None have "st' = ?st1"
        by (simp add: list_remove_def assign_playing_def)
      with Cons.prems(2,3) show ?thesis by (simp add: assign_playing_def)
    qed
  qed
qed

lemma cycle_sets_is_done:
  assumes "\<not> is_done st" and "is_done (snd (next_chunks_cycle st))"
  shows "\<exists>x\<in>set (sounds st). playing (heap st x) \<and>
           sound_chunks (heap (snd (next_chunks_cycle st)) x) = [] \<and>
           \<not> playing (heap (snd (next_chunks_cycle st)) x)"
proof -
  let ?ps = "filter (\<lambda>s. playing (heap st s)) (sounds st)"
  obtain e st' cs where p: "pull_chunks ?ps st [] = (e, st', cs)"
    by (metis prod_cases3)
  have st': "snd (next_chunks_cycle st) = st'" by (rule next_chunks_cycle_pull [OF p])
  from pull_chunks_is_done [OF p assms(1)] assms(2) st'
  obtain x where "x \<in> set ?ps" "sound_chunks (heap st' x) = []" "\<not> playing (heap st' x)"
    by auto
  with st' show ?thesis by auto
qed

lemma play_is_done: "\<not> is_done (snd (play s st))"
  by (cases "sr st = sound_sr (heap st s)"; cases "s \<in> set (sounds st)")
     (simp_all add: play_mismatch play_member play_fresh notify_def assign_playing_def)

lemma remove_is_done: "is_done (snd (remove s st)) = is_done st"
  by (cases "s \<in> set (sounds st)") (simp_all add: remove_member remove_absent assign_playing_def)
lemma step_sets_is_done:
  assumes "step a st = Some st'" and "\<not> is_done st" and "is_done st'"
  shows "a = Producer \<and> producer st = P_Cycle \<and>
         is_done st' = is_done (snd (next_chunks_cycle st)) \<and>
         heap st' = heap (snd (next_chunks_cycle st))"
proof (cases a)
  case (Play s)
  with assms(1,3) play_is_done [of s st] show ?thesis
    by (auto split: prod.splits option.splits)
next
  case (PlayReturn s)
  with assms show ?thesis by (auto simp: play_return_def split: if_splits)
next
  case (Remove s)
  with assms remove_is_done [of s st] show ?thesis by auto
next
  case Run
  with assms show ?thesis
    by (auto simp: run_def split: run_pc.splits if_splits option.splits)
next
  case RunTimeout
  with assms show ?thesis by (auto simp: run_timeout_def split: if_splits)
next
  case Producer
  with assms show ?thesis
    by (auto simp: chunks_producer_def split: producer_pc.splits prod.splits
        cycle_result.splits option.splits)
qed

text \<open>
  C9. \<open>remove\<close> of a sound that is in the list raises nothing, clears the \<open>playing\<close>
  flag of that sound and deletes its first occurrence from the list, which is its
  only one when the list has no duplicates; \<open>is_done\<close> and every other component of
  the state stay as they were. Whenever a step of a thread turns \<open>is_done\<close> from
  cleared to set, the step is the producer's cycle of \<open>next_chunks\<close>, and a sound
  that was playing in the list is exhausted and marked as not playing afterwards.
\<close>

theorem remove_does_not_signal:
  "s \<in> set (sounds st) \<Longrightarrow>
     remove s st =
       (None, st\<lparr>heap := (heap st)(s := (heap st s)\<lparr>playing := False\<rparr>),
                 sounds := remove1 s (sounds st)\<rparr>) \<and>
     is_done (snd (remove s st)) = is_done st \<and>
     (distinct (sounds st) \<longrightarrow> s \<notin> set (sounds (snd (remove s st)))) \<and>
     (\<forall>a st'. step a st = Some st' \<and> \<not> is_done st \<and> is_done st' \<longrightarrow>
        a = Producer \<and> producer st = P_Cycle \<and>
        (\<exists>x\<in>set (sounds st). playing (heap st x) \<and>
           sound_chunks (heap st' x) = [] \<and> \<not> playing (heap st' x)))"
proof (intro conjI allI impI)
  assume m: "s \<in> set (sounds st)"
  show "remove s st =
       (None, st\<lparr>heap := (heap st)(s := (heap st s)\<lparr>playing := False\<rparr>),
                 sounds := remove1 s (sounds st)\<rparr>)"
    using m by (simp add: remove_member assign_playing_def set_playing_def)
  show "is_done (snd (remove s st)) = is_done st" by (rule remove_is_done)
  show "s \<notin> set (sounds (snd (remove s st)))" if "distinct (sounds st)"
    using m that by (simp add: remove_member assign_playing_def)
next
  fix a st'
  assume h: "step a st = Some st' \<and> \<not> is_done st \<and> is_done st'"
  from step_sets_is_done [of a st st'] h
  have a: "a = Producer" "producer st = P_Cycle"
    and d: "is_done st' = is_done (snd (next_chunks_cycle st))"
    and hp: "heap st' = heap (snd (next_chunks_cycle st))"
    by simp_all
  show "a = Producer" "producer st = P_Cycle" by fact+
  from h d have "is_done (snd (next_chunks_cycle st))" by simp
  from cycle_sets_is_done [OF _ this] h hp
  show "\<exists>x\<in>set (sounds st). playing (heap st x) \<and>
           sound_chunks (heap st' x) = [] \<and> \<not> playing (heap st' x)"
    by simp
qed

theorem remove_does_not_signal_witness:
  "0 \<in> set (sounds st_B_pre) \<and> sounds (snd (remove 0 st_B_pre)) = [1] \<and>
   \<not> playing (heap (snd (remove 0 st_B_pre)) 0) \<and>
   \<not> is_done st_B_pre \<and> \<not> is_done (snd (remove 0 st_B_pre)) \<and>
   step Producer st_B_pre \<noteq> None \<and> is_done (the (step Producer st_B_pre)) \<and>
   producer st_B_pre = P_Cycle \<and>
   (\<exists>x\<in>set (sounds st_B_pre). playing (heap st_B_pre x) \<and>
      sound_chunks (heap (the (step Producer st_B_pre)) x) = [] \<and>
      \<not> playing (heap (the (step Producer st_B_pre)) x))"
proof -
  have h: "0 \<in> set (sounds st_B_pre)" and d: "distinct (sounds st_B_pre)"
    and s: "remove1 0 (sounds st_B_pre) = [1]"
    and n: "\<not> is_done st_B_pre"
    and e: "step Producer st_B_pre \<noteq> None"
    and i: "is_done (the (step Producer st_B_pre))"
    by (simp_all add: sched_defs example_defs model_defs)
  from e have e': "step Producer st_B_pre = Some (the (step Producer st_B_pre))" by simp
  note t = remove_does_not_signal [OF h]
  from t have r: "is_done (snd (remove 0 st_B_pre)) = is_done st_B_pre"
    "sounds (snd (remove 0 st_B_pre)) = remove1 0 (sounds st_B_pre)"
    "\<not> playing (heap (snd (remove 0 st_B_pre)) 0)"
    by simp_all
  from t e' n i have "producer st_B_pre = P_Cycle \<and>
    (\<exists>x\<in>set (sounds st_B_pre). playing (heap st_B_pre x) \<and>
      sound_chunks (heap (the (step Producer st_B_pre)) x) = [] \<and>
      \<not> playing (heap (the (step Producer st_B_pre)) x))"
    by blast
  with h s n e i r show ?thesis by simp
qed

subsection \<open>The hand-off queue\<close>

lemma play_chunks: "chunks (snd (play s st)) = chunks st"
  by (cases "sr st = sound_sr (heap st s)"; cases "s \<in> set (sounds st)")
     (simp_all add: play_mismatch play_member play_fresh notify_def assign_playing_def)

lemma remove_chunks: "chunks (snd (remove s st)) = chunks st"
  by (cases "s \<in> set (sounds st)") (simp_all add: remove_member remove_absent assign_playing_def)

lemma next_chunks_cycle_chunks: "chunks (snd (next_chunks_cycle st)) = chunks st"
proof -
  obtain e st' cs where
    p: "pull_chunks (filter (\<lambda>s. playing (heap st s)) (sounds st)) st [] = (e, st', cs)"
    by (metis prod_cases3)
  from pull_chunks_frame [OF p] next_chunks_cycle_pull [OF p] show ?thesis by simp
qed

lemma step_queue:
  assumes "step a st = Some st'"
    and "maxsize (chunks st) = 1 \<and> length (items (chunks st)) \<le> 1"
  shows "maxsize (chunks st') = 1 \<and> length (items (chunks st')) \<le> 1"
proof (cases a)
  case (Play s)
  with assms play_chunks [of s st] show ?thesis
    by (auto split: prod.splits option.splits)
next
  case (PlayReturn s)
  with assms show ?thesis by (auto simp: play_return_def split: if_splits)
next
  case (Remove s)
  with assms remove_chunks [of s st] show ?thesis by auto
next
  case Run
  with assms show ?thesis
    by (auto simp: run_def queue_get_def split: run_pc.splits if_splits option.splits list.splits)
next
  case RunTimeout
  with assms show ?thesis by (auto simp: run_timeout_def split: if_splits)
next
  case Producer
  with assms next_chunks_cycle_chunks [of st] show ?thesis
    by (auto simp: chunks_producer_def queue_put_def le_Suc_eq split: producer_pc.splits
        prod.splits cycle_result.splits option.splits if_splits)
qed

lemma reachable_queue:
  "reachable st \<Longrightarrow> maxsize (chunks st) = 1 \<and> length (items (chunks st)) \<le> 1"
proof (induction rule: reachable.induct)
  case (init sr0 backend timeout0 h st)
  then show ?case by (auto simp: Sampler_init_def Queue_def Let_def split: if_splits)
next
  case (step st a st')
  from step_queue [OF step.hyps(2) step.IH] show ?case .
qed

lemma reachable_steps: "reachable st \<Longrightarrow> steps as st = Some st' \<Longrightarrow> reachable st'"
proof (induction as arbitrary: st)
  case Nil
  then show ?case by simp
next
  case (Cons a as)
  then show ?case by (auto split: option.splits intro: reachable.step)
qed

lemma reachable_st0: "reachable st0"
  by (rule reachable.init [of 22050 "''dummy''" 1 heap0]) (simp add: st0_def Sampler_init_def)

text \<open>
  C7. In every state that the threads can reach from a constructed sampler the queue
  holds at most one chunk. While it holds one, a \<open>put\<close> blocks, so the producer at
  its \<open>put\<close> cannot move; a \<open>get\<close> leaves the queue empty, and the \<open>put\<close> then
  succeeds.
\<close>

theorem handoff_queue_bounded:
  "reachable st \<Longrightarrow>
     length (items (chunks st)) \<le> 1 \<and>
     (items (chunks st) \<noteq> [] \<longrightarrow>
        queue_put c (chunks st) = None \<and>
        (producer st = P_Put c \<longrightarrow> chunks_producer st = None) \<and>
        (\<forall>x q. queue_get (chunks st) = Some (x, q) \<longrightarrow> items q = [] \<and> queue_put c q \<noteq> None))"
proof -
  assume "reachable st"
  from reachable_queue [OF this]
  have q: "maxsize (chunks st) = 1" "length (items (chunks st)) \<le> 1" by simp_all
  then show ?thesis
    by (cases "items (chunks st)")
       (auto simp: queue_put_def queue_get_def chunks_producer_def)
qed

theorem handoff_queue_bounded_witness:
  "reachable st_full \<and> items (chunks st_full) = [[1, 1]] \<and> producer st_full = P_Put [1, 1] \<and>
   chunks_producer st_full = None \<and>
   run st_full \<noteq> None \<and> items (chunks (the (run st_full))) = [] \<and>
   chunks_producer (the (run st_full)) \<noteq> None"
proof -
  have "steps [Run, Play 0, Producer, Producer, Producer, Producer, Producer] st0 \<noteq> None"
    by (simp add: example_defs model_defs)
  then have "steps [Run, Play 0, Producer, Producer, Producer, Producer, Producer] st0 = Some st_full"
    by (simp add: st_full_def)
  from reachable_steps [OF reachable_st0 this] have r: "reachable st_full" .
  have i: "items (chunks st_full) = [[1, 1]]" and p: "producer st_full = P_Put [1, 1]"
    and g: "run st_full \<noteq> None" "items (chunks (the (run st_full))) = []"
      "chunks_producer (the (run st_full)) \<noteq> None"
    by (simp_all add: sched_defs example_defs model_defs)
  from handoff_queue_bounded [OF r, of "[1, 1]"] i p
  have "chunks_producer st_full = None" by simp
  with r i p g show ?thesis by simp
qed

subsection \<open>Two callers of play\<close>

text \<open>
  C2 fails on the code. Two callers play the sounds 0 (three chunks) and 1 (one
  chunk). In its second cycle the producer finds the sound 1 exhausted and sets
  \<open>is_done\<close>, the one event that all callers wait for: the \<open>play\<close> of the sound 0 can
  return, and does so while the sound 0 is in the list and marked as playing.
\<close>

theorem play_returns_while_playing:
  "steps [Run, Play 0, Play 1, Producer, Producer, Producer, Producer, Producer] st0 \<noteq> None \<and>
   sr st_B_done = sound_sr (heap st_B_done 0) \<and>
   waiters st_B_done = [0, 1] \<and> sounds st_B_done = [0] \<and>
   is_done st_B_done \<and> playing (heap st_B_done 0) \<and>
   step (PlayReturn 0) st_B_done \<noteq> None \<and>
   waiters (the (step (PlayReturn 0) st_B_done)) = [1] \<and>
   playing (heap (the (step (PlayReturn 0) st_B_done)) 0)"
  by (simp add: sched_defs example_defs model_defs)

subsection \<open>The timeout of the device writer\<close>

text \<open>
  A producer that waits on the condition moves again only when a caller enters
  \<open>play\<close>: no other step changes its place.
\<close>

lemma waiting_producer_needs_play:
  assumes "producer st = P_Wait \<and> play_thread st = Run_Exited"
    and "step a st = Some st'" and "\<forall>s. a \<noteq> Play s"
  shows "producer st' = P_Wait \<and> play_thread st' = Run_Exited"
proof (cases a)
  case (Remove s)
  with assms show ?thesis
    by (cases "s \<in> set (sounds st)") (auto simp: remove_member remove_absent assign_playing_def)
qed (use assms in \<open>auto simp: play_return_def run_def run_timeout_def chunks_producer_def
      split: if_splits\<close>)

lemma waiting_producer_stays:
  "producer st = P_Wait \<and> play_thread st = Run_Exited \<Longrightarrow> steps as st = Some st' \<Longrightarrow>
   \<forall>s. Play s \<notin> set as \<Longrightarrow> producer st' = P_Wait \<and> play_thread st' = Run_Exited"
proof (induction as arbitrary: st)
  case Nil
  then show ?case by simp
next
  case (Cons a as)
  from Cons.prems(2) obtain st1 where a: "step a st = Some st1" and as: "steps as st1 = Some st'"
    by (auto split: option.splits)
  from Cons.prems(3) have na: "\<forall>s. a \<noteq> Play s" and nas: "\<forall>s. Play s \<notin> set as" by auto
  from Cons.IH [OF waiting_producer_needs_play [OF Cons.prems(1) a na] as nas] show ?case .
qed

text \<open>
  C5 fails on the code for the producer. No sound is played; the producer finds
  nothing to mix and waits on the condition. The \<open>get\<close> of \<open>run\<close> times out, \<open>running\<close>
  is cleared, \<open>run\<close> leaves its loop and closes the stream. The producer is still in
  \<open>chunk_available.wait()\<close>: it has not ended, and neither it nor \<open>run\<close> can take a
  step.
\<close>

theorem starved_producer_stays_blocked:
  "steps [Run, Producer, Producer, RunTimeout, Run] st0 \<noteq> None \<and>
   \<not> running st_starved \<and> play_thread st_starved = Run_Exited \<and>
   \<not> stream_open st_starved \<and>
   producer st_starved = P_Wait \<and>
   step Producer st_starved = None \<and> step Run st_starved = None \<and>
   step RunTimeout st_starved = None"
  by (simp add: sched_defs example_defs model_defs)

end
